theory Spec2Isabelle
  imports Main "HOL-Library.AList"
begin

section \<open>JavaScript values and the data of a validation run\<close>

text \<open>
  The values that flow through \<^verbatim>\<open>validate.ts\<close> are untyped JavaScript values
  (\<^verbatim>\<open>unknown\<close>). An object is its list of entries in key enumeration order; a function
  value is an identity together with its \<^verbatim>\<open>__locatorRef\<close> property, absent on an
  ordinary function. Numbers are integers here: \<^verbatim>\<open>NaN\<close> and fractions play no part in
  the functions modelled.
\<close>

datatype jsval =
    JUndefined
  | JNull
  | JBool bool
  | JNum int
  | JStr string
  | JArr "jsval list"
  | JObj "(string \<times> jsval) list"
  | JFun nat "string option"

text \<open>JavaScript truthiness, as \<^verbatim>\<open>!!v\<close>, \<^verbatim>\<open>if (v)\<close> and \<^verbatim>\<open>v ? a : b\<close> read a value.\<close>

fun truthy :: "jsval \<Rightarrow> bool" where
  "truthy JUndefined = False"
| "truthy JNull = False"
| "truthy (JBool b) = b"
| "truthy (JNum n) = (n \<noteq> 0)"
| "truthy (JStr s) = (s \<noteq> [])"
| "truthy (JArr xs) = True"
| "truthy (JObj kvs) = True"
| "truthy (JFun i r) = True"

type_synonym formdata = "(string \<times> jsval) list"

text \<open>A rule's parameters: \<^verbatim>\<open>Record<string, unknown> | unknown[]\<close>.\<close>

datatype params = PArr "jsval list" | PObj "(string \<times> jsval) list"

text \<open>\<^verbatim>\<open>FieldContext\<close>: the context handed to a rule and to the message generator.\<close>

record field_ctx =
  ctx_field :: string
  ctx_value :: jsval
  ctx_form :: formdata
  ctx_rule :: "(string \<times> params) option"

text \<open>
  What a promise can be rejected with, and what a function can throw. Reading the
  \<^verbatim>\<open>name\<close> of \<^verbatim>\<open>null\<close> or \<^verbatim>\<open>undefined\<close> fails, so these two stand apart (\<open>Nullish\<close>).
  Every other value is an error object: its \<^verbatim>\<open>name\<close> (any name but
  \<^verbatim>\<open>ValidationError\<close> when the value has none), and the \<^verbatim>\<open>errors\<close>, \<^verbatim>\<open>path\<close> and
  \<^verbatim>\<open>inner\<close> that yup's \<^verbatim>\<open>ValidationError\<close> carries; \<^verbatim>\<open>path\<close> and \<^verbatim>\<open>inner\<close> may be absent.
\<close>

datatype rejection =
  Rejection (err_name: string) (err_errors: "string list") (err_path: "string option")
    (err_inner: "rejection list option")

datatype reason = Nullish | ErrorObject rejection

text \<open>
  What a run can throw: the \<^verbatim>\<open>Error\<close> built by \<^verbatim>\<open>_test\<close>, the \<^verbatim>\<open>TypeError\<close> of a catch
  handler that reads \<^verbatim>\<open>err.name\<close> of a nullish rejection, or whatever a rule or a schema
  raised.
\<close>

datatype thrown = Error string | TypeError | Raised reason

type_synonym validator = "jsval \<Rightarrow> params \<Rightarrow> field_ctx \<Rightarrow> thrown + jsval"

type_synonym generic_fn = "jsval \<Rightarrow> field_ctx \<Rightarrow> thrown + jsval"

text \<open>
  A schema capability: \<^verbatim>\<open>validate(value, {abortEarly})\<close> resolves (\<open>None\<close>) or rejects
  with a reason.
\<close>

type_synonym yup_validator = "jsval \<Rightarrow> bool \<Rightarrow> reason option"

text \<open>
  The rule expression of a field. \<^verbatim>\<open>_validate\<close> probes its shape with
  \<^verbatim>\<open>isYupValidator\<close>, then \<^verbatim>\<open>isCallable\<close>; every other expression goes through
  \<^verbatim>\<open>normalizeRules\<close>.
\<close>

datatype 'e rules = YupRules yup_validator | FnRules generic_fn | RawRules 'e

text \<open>
  What \<^verbatim>\<open>validate.ts\<close> imports from modules that are not part of the sources read here:
  the rule registry (\<^verbatim>\<open>resolveRule\<close>), the configured message generator
  (\<^verbatim>\<open>getConfig().generateMessage\<close>), \<^verbatim>\<open>normalizeRules\<close> (its result as the entries of the
  normalized object, in key order), the body of a locator when it is called on the
  cross-field table, and \<^verbatim>\<open>getFromPath\<close>. They are parameters of the model.
\<close>

record 'e env =
  resolveRule :: "string \<Rightarrow> validator option"
  generateMessage :: "(field_ctx \<Rightarrow> string) option"
  normalizeRules :: "'e \<Rightarrow> (string \<times> params) list"
  callLocator :: "jsval \<Rightarrow> formdata \<Rightarrow> jsval"
  getFromPath :: "formdata \<Rightarrow> string \<Rightarrow> jsval"

text \<open>\<^verbatim>\<open>FieldValidationContext\<close>, \<^verbatim>\<open>ValidationOptions\<close> and \<^verbatim>\<open>ValidationResult\<close>.\<close>

record 'e field_validation_context =
  name :: string
  rules :: "'e rules"
  bails :: bool
  formData :: formdata

record validation_options =
  opt_name :: "string option"
  opt_values :: "formdata option"
  opt_bails :: "bool option"

record validation_result =
  errors :: "string list"
  valid :: bool

section \<open>validate.ts\<close>

text \<open>
  The functions of \<^verbatim>\<open>validate.ts\<close>, in the order of the file. A name that starts with an
  underscore there (\<^verbatim>\<open>_validate\<close>, \<^verbatim>\<open>_test\<close>, \<^verbatim>\<open>_generateFieldError\<close>) carries the
  prefix \<open>priv_\<close> here. Awaiting a rule is calling it: a rule is a function of the value,
  its parameters and the context, and \<open>Inl\<close> is what it throws or rejects with.
\<close>

definition isLocator :: "jsval \<Rightarrow> bool" where
  "isLocator v = (case v of JFun i (Some r) \<Rightarrow> r \<noteq> [] | _ \<Rightarrow> False)"

text \<open>The inner \<^verbatim>\<open>normalize\<close> of \<^verbatim>\<open>fillTargetValues\<close>.\<close>

definition normalize_value :: "'e env \<Rightarrow> formdata \<Rightarrow> jsval \<Rightarrow> jsval" where
  "normalize_value env crossTable v = (if isLocator v then callLocator env v crossTable else v)"

text \<open>\<^verbatim>\<open>params[param]\<close>: reading a missing key gives \<^verbatim>\<open>undefined\<close>.\<close>

definition get_prop :: "(string \<times> jsval) list \<Rightarrow> string \<Rightarrow> jsval" where
  "get_prop kvs k = (case map_of kvs k of None \<Rightarrow> JUndefined | Some v \<Rightarrow> v)"

definition fillTargetValues :: "'e env \<Rightarrow> params \<Rightarrow> formdata \<Rightarrow> params" where
  "fillTargetValues env ps crossTable =
     (case ps of
        PArr xs \<Rightarrow> PArr (map (normalize_value env crossTable) xs)
      | PObj kvs \<Rightarrow>
          PObj (fold (\<lambda>param acc. AList.update param (normalize_value env crossTable (get_prop kvs param)) acc)
                  (map fst kvs) []))"

definition priv_generateFieldError :: "'e env \<Rightarrow> field_ctx \<Rightarrow> string" where
  "priv_generateFieldError env fieldCtx =
     (case generateMessage env of
        None \<Rightarrow> ''Field is invalid''
      | Some message \<Rightarrow> message fieldCtx)"

definition no_such_validator :: "string \<Rightarrow> string" where
  "no_such_validator n = ''No such validator '' @ [CHR 0x27] @ n @ [CHR 0x27] @ '' exists.''"

text \<open>
  \<^verbatim>\<open>_test\<close>: one rule against the value. The result is the \<^verbatim>\<open>error\<close> property of the
  object it returns (\<open>None\<close> for \<^verbatim>\<open>undefined\<close>); \<open>Inl\<close> is a throw.
\<close>

definition priv_test ::
  "'e env \<Rightarrow> 'e field_validation_context \<Rightarrow> jsval \<Rightarrow> string \<times> params \<Rightarrow> thrown + string option"
where
  "priv_test env field v r =
     (case resolveRule env (fst r) of
        None \<Rightarrow> Inl (Error (no_such_validator (fst r)))
      | Some validator \<Rightarrow>
          (let ps = fillTargetValues env (snd r) (formData field);
               ctx = \<lparr>ctx_field = name field, ctx_value = v, ctx_form = formData field,
                      ctx_rule = Some (fst r, ps)\<rparr>
           in case validator v ps ctx of
                Inl t \<Rightarrow> Inl t
              | Inr result \<Rightarrow>
                  (case result of
                     JStr s \<Rightarrow> Inr (Some s)
                   | _ \<Rightarrow> Inr (if truthy result then None
                                else Some (priv_generateFieldError env ctx)))))"

text \<open>
  The \<^verbatim>\<open>for\<close> loop of \<^verbatim>\<open>_validate\<close> over the keys of the normalized rules, with the
  \<^verbatim>\<open>errors\<close> array as accumulator. \<^verbatim>\<open>if (result.error)\<close> is a truthiness test: the
  empty string does not count as an error.
\<close>

fun run_rules ::
  "'e env \<Rightarrow> 'e field_validation_context \<Rightarrow> jsval \<Rightarrow> (string \<times> params) list \<Rightarrow> string list
     \<Rightarrow> thrown + string list"
where
  "run_rules env field v [] errs = Inr errs"
| "run_rules env field v (r # rs) errs =
     (case priv_test env field v r of
        Inl t \<Rightarrow> Inl t
      | Inr None \<Rightarrow> run_rules env field v rs errs
      | Inr (Some e) \<Rightarrow>
          (if e \<noteq> [] then
             (if bails field then Inr (errs @ [e])
              else run_rules env field v rs (errs @ [e]))
           else run_rules env field v rs errs))"

definition validateFieldWithYup ::
  "jsval \<Rightarrow> yup_validator \<Rightarrow> bool option \<Rightarrow> thrown + string list"
where
  "validateFieldWithYup v validator opts_bails =
     (case validator v (case opts_bails of None \<Rightarrow> True | Some b \<Rightarrow> b) of
        None \<Rightarrow> Inr []
      | Some Nullish \<Rightarrow> Inl TypeError
      | Some (ErrorObject err) \<Rightarrow>
          (if err_name err = ''ValidationError'' then Inr (err_errors err)
           else Inl (Raised (ErrorObject err))))"

definition priv_validate ::
  "'e env \<Rightarrow> 'e field_validation_context \<Rightarrow> jsval \<Rightarrow> thrown + string list"
where
  "priv_validate env field v =
     (case rules field of
        YupRules validator \<Rightarrow> validateFieldWithYup v validator (Some (bails field))
      | FnRules f \<Rightarrow>
          (let ctx = \<lparr>ctx_field = name field, ctx_value = v, ctx_form = formData field,
                      ctx_rule = None\<rparr>
           in case f v ctx of
                Inl t \<Rightarrow> Inl t
              | Inr result \<Rightarrow>
                  (let isValid = (case result of JStr s \<Rightarrow> False | _ \<Rightarrow> truthy result);
                       message = (case result of JStr s \<Rightarrow> s
                                  | _ \<Rightarrow> priv_generateFieldError env ctx)
                   in Inr (if \<not> isValid then [message] else [])))
      | RawRules e \<Rightarrow> run_rules env field v (normalizeRules env e) [])"

text \<open>The \<^verbatim>\<open>field\<close> object that \<^verbatim>\<open>validate\<close> builds from its options.\<close>

definition make_field :: "'e rules \<Rightarrow> validation_options \<Rightarrow> 'e field_validation_context" where
  "make_field rs options =
     \<lparr>name = (case opt_name options of
                None \<Rightarrow> ''{field}''
              | Some n \<Rightarrow> if n \<noteq> [] then n else ''{field}''),
      rules = rs,
      bails = (case opt_bails options of None \<Rightarrow> True | Some b \<Rightarrow> b),
      formData = (case opt_values options of None \<Rightarrow> [] | Some vs \<Rightarrow> vs)\<rparr>"

definition validate ::
  "'e env \<Rightarrow> jsval \<Rightarrow> 'e rules \<Rightarrow> validation_options \<Rightarrow> thrown + validation_result"
where
  "validate env v rs options =
     (case priv_validate env (make_field rs options) v of
        Inl t \<Rightarrow> Inl t
      | Inr errs \<Rightarrow> Inr \<lparr>errors = errs, valid = (errs = [])\<rparr>)"

text \<open>
  \<^verbatim>\<open>FormValidationResult\<close>: the form's verdict and one result per path. The
  \<^verbatim>\<open>results\<close> object is its list of entries.
\<close>

record form_validation_result =
  form_valid :: bool
  results :: "(string \<times> validation_result) list"

text \<open>Writing \<^verbatim>\<open>acc[err.path]\<close> with an absent path uses the key \<^verbatim>\<open>undefined\<close>.\<close>

definition path_key :: "rejection \<Rightarrow> string" where
  "path_key err = (case err_path err of None \<Rightarrow> ''undefined'' | Some p \<Rightarrow> p)"

text \<open>
  The \<^verbatim>\<open>reduce\<close> of \<^verbatim>\<open>validateYupSchema\<close> over the aggregated errors, and its return.
  The \<^verbatim>\<open>results\<close> object is built by writing keys: its entries stand in the order of
  their first write, and a key written again keeps its place and takes the new value.
  The list is read by key (\<open>map_of\<close>); JavaScript would enumerate integer-like keys
  first.
\<close>

definition yup_results :: "rejection list \<Rightarrow> form_validation_result" where
  "yup_results errs =
     \<lparr>form_valid = (errs = []),
      results = fold (\<lambda>err acc. AList.update (path_key err)
                         \<lparr>errors = err_errors err, valid = (err_errors err = [])\<rparr> acc) errs []\<rparr>"

definition validateYupSchema :: "yup_validator \<Rightarrow> jsval \<Rightarrow> thrown + form_validation_result" where
  "validateYupSchema schema vals =
     (case schema vals False of
        None \<Rightarrow> Inr (yup_results [])
      | Some Nullish \<Rightarrow> Inl TypeError
      | Some (ErrorObject err) \<Rightarrow>
          (if err_name err \<noteq> ''ValidationError'' then Inl (Raised (ErrorObject err))
           else Inr (yup_results (case err_inner err of None \<Rightarrow> [] | Some i \<Rightarrow> i))))"

record object_schema_opts =
  opts_names :: "(string \<times> string) list option"
  opts_bails :: "bool option"

text \<open>\<^verbatim>\<open>opts?.names?.[path] || path\<close> and \<^verbatim>\<open>opts?.bails ?? true\<close>.\<close>

definition path_label :: "object_schema_opts option \<Rightarrow> string \<Rightarrow> string" where
  "path_label opts path =
     (case opts of
        None \<Rightarrow> path
      | Some os \<Rightarrow>
          (case opts_names os of
             None \<Rightarrow> path
           | Some ns \<Rightarrow>
               (case map_of ns path of
                  None \<Rightarrow> path
                | Some n \<Rightarrow> if n \<noteq> [] then n else path)))"

definition schema_bails :: "object_schema_opts option \<Rightarrow> bool" where
  "schema_bails opts =
     (case opts of
        None \<Rightarrow> True
      | Some os \<Rightarrow> (case opts_bails os of None \<Rightarrow> True | Some b \<Rightarrow> b))"

text \<open>
  \<^verbatim>\<open>Promise.all\<close>: when every promise resolves, the values in list order; otherwise the
  reason of the promise that rejects first in time. \<open>settled\<close> lists positions in the
  order in which the promises settle; a position it does not list settles after the
  listed ones, in list order.
\<close>

definition rejected_at :: "('t + 'a) list \<Rightarrow> nat \<Rightarrow> 't option" where
  "rejected_at ps i =
     (if i < length ps then (case ps ! i of Inl t \<Rightarrow> Some t | Inr x \<Rightarrow> None) else None)"

definition promise_all :: "nat list \<Rightarrow> ('t + 'a) list \<Rightarrow> 't + 'a list" where
  "promise_all settled ps =
     (case List.map_filter (rejected_at ps) (settled @ [0..<length ps]) of
        t # ts \<Rightarrow> Inl t
      | [] \<Rightarrow> Inr (List.map_filter (\<lambda>p. case p of Inl t \<Rightarrow> None | Inr x \<Rightarrow> Some x) ps))"

text \<open>
  The options \<^verbatim>\<open>validateObjectSchema\<close> hands to \<^verbatim>\<open>validate\<close> for a path.
  \<^verbatim>\<open>validateObjectSchema\<close> itself takes, besides the arguments of the source, the order
  in which its validations settle.
\<close>

definition path_options :: "object_schema_opts option \<Rightarrow> formdata \<Rightarrow> string \<Rightarrow> validation_options" where
  "path_options opts vals path =
     \<lparr>opt_name = Some (path_label opts path), opt_values = Some vals,
      opt_bails = Some (schema_bails opts)\<rparr>"

definition validateObjectSchema ::
  "'e env \<Rightarrow> nat list \<Rightarrow> (string \<times> 'e rules) list \<Rightarrow> formdata \<Rightarrow> object_schema_opts option
     \<Rightarrow> thrown + form_validation_result"
where
  "validateObjectSchema env settled schema vals opts =
     (let validations =
            map (\<lambda>entry.
                   case validate env (getFromPath env vals (fst entry)) (snd entry)
                          (path_options opts vals (fst entry)) of
                     Inl t \<Rightarrow> Inl t
                   | Inr fieldResult \<Rightarrow> Inr (fst entry, fieldResult)) schema
      in case promise_all settled validations of
           Inl t \<Rightarrow> Inl t
         | Inr rs \<Rightarrow>
             Inr \<lparr>form_valid = list_all (\<lambda>r. valid (snd r)) rs,
                  results = fold (\<lambda>r acc. AList.update (fst r)
                                    \<lparr>errors = errors (snd r), valid = valid (snd r)\<rparr> acc) rs []\<rparr>)"

section \<open>Field flags\<close>

text \<open>
  The flags object of a field is keyed by flag names and is read and written by key
  (\<^verbatim>\<open>this.flags[flag] = flags[flag]\<close>), so it is a function from flag names.
\<close>

datatype flag_name =
    Untouched | Touched | Dirty | Pristine | Valid | Invalid | Validated | Pending
  | Required | Changed | Passed | Failed

type_synonym flags = "flag_name \<Rightarrow> bool"

text \<open>
  Modelled from the spec: \<^verbatim>\<open>createFlags\<close> of the \<^verbatim>\<open>utils\<close> module, which is not among the
  sources; the initial state is "all-false flags except untouched=true, pristine=true".
\<close>

definition createFlags :: flags where
  "createFlags = (\<lambda>f. f = Untouched \<or> f = Pristine)"

text \<open>\<^verbatim>\<open>setFlags\<close>: \<^verbatim>\<open>Object.keys(flags).forEach(flag => this.flags[flag] = flags[flag])\<close>.\<close>

definition setFlags :: "(flag_name \<times> bool) list \<Rightarrow> flags \<Rightarrow> flags" where
  "setFlags upd fl = fold (\<lambda>kv acc. acc(fst kv := snd kv)) upd fl"

section \<open>observer.js\<close>

datatype strategy = Every | SomeOf

definition flagMergingStrategy :: "(flag_name \<times> strategy) list" where
  "flagMergingStrategy =
     [(Pristine, Every), (Dirty, SomeOf), (Touched, SomeOf), (Untouched, Every),
      (Valid, Every), (Invalid, SomeOf), (Pending, SomeOf), (Validated, Every)]"

text \<open>
  \<^verbatim>\<open>[lhs, rhs][stratName](f => f)\<close>. A flag outside the table has no strategy (the source
  would fail on it); the observer only merges the table's own keys.
\<close>

definition mergeFlags :: "bool \<Rightarrow> bool \<Rightarrow> flag_name \<Rightarrow> bool option" where
  "mergeFlags lhs rhs strat =
     (case map_of flagMergingStrategy strat of
        None \<Rightarrow> None
      | Some Every \<Rightarrow> Some (list_all (\<lambda>f. f) [lhs, rhs])
      | Some SomeOf \<Rightarrow> Some (list_ex (\<lambda>f. f) [lhs, rhs]))"

text \<open>
  A provider as \<^verbatim>\<open>provider.js\<close> keeps it: its id, messages and flags, the tracked value
  (\<open>pvalue\<close> for its \<^verbatim>\<open>value\<close>), and the promise of the run it waits for in \<^verbatim>\<open>_waiting\<close>
  (promises are told apart by a number).
\<close>

record provider =
  vid :: string
  messages :: "string list"
  flags :: flags
  pvalue :: jsval
  initialValue :: jsval
  waiting :: "nat option"
  eventEmitted :: bool

text \<open>The slot context of the observer: the errors by provider id and the merged flags.\<close>

record observer_ctx =
  ctx_errors :: "(string \<times> string list) list"
  ctx_flags :: "flag_name \<Rightarrow> bool option"

text \<open>
  The body of the \<^verbatim>\<open>reduce\<close> in the computed \<^verbatim>\<open>ctx\<close>, for one provider: the
  \<^verbatim>\<open>forEach\<close> over the keys of the table (\<open>merge_flag\<close> is its callback), then the
  provider's messages.
\<close>

definition merge_flag :: "provider \<Rightarrow> flag_name \<Rightarrow> observer_ctx \<Rightarrow> observer_ctx" where
  "merge_flag p flag acc =
     (case ctx_flags acc flag of
        None \<Rightarrow> acc\<lparr>ctx_flags := (ctx_flags acc)(flag \<mapsto> flags p flag)\<rparr>
      | Some lhs \<Rightarrow> acc\<lparr>ctx_flags := (ctx_flags acc)(flag := mergeFlags lhs (flags p flag) flag)\<rparr>)"

definition merge_provider :: "provider \<Rightarrow> observer_ctx \<Rightarrow> observer_ctx" where
  "merge_provider p acc =
     (let acc' = fold (merge_flag p) (map fst flagMergingStrategy) acc
      in acc'\<lparr>ctx_errors := AList.update (vid p) (messages p) (ctx_errors acc')\<rparr>)"

text \<open>The computed \<^verbatim>\<open>ctx\<close> over \<^verbatim>\<open>values(this.refs)\<close>.\<close>

definition observer_ctx_of :: "provider list \<Rightarrow> observer_ctx" where
  "observer_ctx_of refs = fold merge_provider refs \<lparr>ctx_errors = [], ctx_flags = Map.empty\<rparr>"

section \<open>provider.js: validation runs of a provider\<close>

definition applyResult :: "string list \<Rightarrow> provider \<Rightarrow> provider" where
  "applyResult errs p =
     (let p' = p\<lparr>messages := errs\<rparr>
      in p'\<lparr>flags := setFlags [(Valid, errs = []), (Changed, pvalue p' \<noteq> initialValue p'),
                                (Invalid, errs \<noteq> []), (Validated, True)] (flags p')\<rparr>)"

text \<open>
  The two moments of a run started by the \<^verbatim>\<open>onValidate\<close> handler. \<open>Fire n\<close>: the handler
  calls \<^verbatim>\<open>ctx.validate()\<close> (whose \<^verbatim>\<open>validateSilent\<close> raises \<^verbatim>\<open>pending\<close>), gets promise
  \<open>n\<close>, and stores it in \<^verbatim>\<open>_waiting\<close>. \<open>Settle n errs\<close>: the verification of run \<open>n\<close>
  resolves with \<open>errs\<close>; the callbacks chained on it run in order: the one of
  \<^verbatim>\<open>validateSilent\<close> (clears \<^verbatim>\<open>pending\<close>), the one of \<^verbatim>\<open>validate\<close> (applies the result),
  the one of \<^verbatim>\<open>onValidate\<close> (applies the result when the promise is still the awaited one).
\<close>

datatype run_event = Fire nat | Settle nat "string list"

fun provider_step :: "run_event \<Rightarrow> provider \<Rightarrow> provider" where
  "provider_step (Fire n) p =
     (p\<lparr>flags := setFlags [(Pending, True)] (flags p)\<rparr>)\<lparr>waiting := Some n, eventEmitted := True\<rparr>"
| "provider_step (Settle n errs) p =
     (let p1 = p\<lparr>flags := setFlags [(Pending, False)] (flags p)\<rparr>;
          p2 = applyResult errs p1
      in if waiting p2 = Some n then (applyResult errs p2)\<lparr>waiting := None\<rparr> else p2)"

text \<open>The \<^verbatim>\<open>data\<close> of a fresh provider.\<close>

definition new_provider :: "string \<Rightarrow> provider" where
  "new_provider i =
     \<lparr>vid = i, messages = [], flags = createFlags, pvalue = JUndefined,
      initialValue = JUndefined, waiting = None, eventEmitted = False\<rparr>"

section \<open>Provider.ts: the flags of a provider\<close>





section \<open>useField.ts: the meta of a field\<close>








section \<open>The vocabulary of the properties\<close>

text \<open>
  The outcome of one rule on a value, in the words of the spec. The rule passed
  (\<open>rule_holds\<close>) when its validator returned a truthy value that is not a string, so
  that \<^verbatim>\<open>_test\<close> gives no error. It failed when its validator returned a string or a
  falsy value: \<open>failure_message\<close> is then its message, the returned string or the
  generated one, which may be the empty string.
\<close>

definition rule_holds ::
  "'e env \<Rightarrow> 'e field_validation_context \<Rightarrow> jsval \<Rightarrow> string \<times> params \<Rightarrow> bool"
where
  "rule_holds env field v r = (priv_test env field v r = Inr None)"

definition failure_message ::
  "'e env \<Rightarrow> 'e field_validation_context \<Rightarrow> jsval \<Rightarrow> string \<times> params \<Rightarrow> string option"
where
  "failure_message env field v r =
     (case priv_test env field v r of
        Inl t \<Rightarrow> None
      | Inr None \<Rightarrow> None
      | Inr (Some m) \<Rightarrow> Some m)"

text \<open>
  What the loop of \<^verbatim>\<open>_validate\<close> sees of a rule. \<open>rule_returns\<close>: \<^verbatim>\<open>_test\<close> returns rather
  than throws. \<open>rule_passes\<close>: \<^verbatim>\<open>_test\<close> returns and the loop records no error for the
  rule, which is the case of a rule that passed and also of a rule that failed with the
  empty string as its message, since the loop tests \<^verbatim>\<open>result.error\<close> for truthiness.
\<close>

definition rule_returns ::
  "'e env \<Rightarrow> 'e field_validation_context \<Rightarrow> jsval \<Rightarrow> string \<times> params \<Rightarrow> bool"
where
  "rule_returns env field v r = (case priv_test env field v r of Inl t \<Rightarrow> False | Inr e \<Rightarrow> True)"

definition rule_passes ::
  "'e env \<Rightarrow> 'e field_validation_context \<Rightarrow> jsval \<Rightarrow> string \<times> params \<Rightarrow> bool"
where
  "rule_passes env field v r =
     (case priv_test env field v r of
        Inl t \<Rightarrow> False
      | Inr None \<Rightarrow> True
      | Inr (Some e) \<Rightarrow> e = [])"

text \<open>The context \<^verbatim>\<open>_test\<close> builds for a rule, with its parameters resolved.\<close>

definition rule_ctx ::
  "'e env \<Rightarrow> 'e field_validation_context \<Rightarrow> jsval \<Rightarrow> string \<times> params \<Rightarrow> field_ctx"
where
  "rule_ctx env field v r =
     \<lparr>ctx_field = name field, ctx_value = v, ctx_form = formData field,
      ctx_rule = Some (fst r, fillTargetValues env (snd r) (formData field))\<rparr>"

text \<open>What the reduce of the observer makes of a flag of the table for one more provider.\<close>

definition merged_with :: "provider \<Rightarrow> flag_name \<Rightarrow> bool option \<Rightarrow> bool option" where
  "merged_with p flag old =
     (case old of None \<Rightarrow> Some (flags p flag) | Some lhs \<Rightarrow> mergeFlags lhs (flags p flag) flag)"


section \<open>Sample inputs\<close>

text \<open>
  A small registry: \<^verbatim>\<open>required\<close> accepts truthy values, \<^verbatim>\<open>email\<close> accepts strings with an
  at-sign, \<^verbatim>\<open>min\<close> accepts strings at least as long as its first parameter and answers
  with a message of its own otherwise, \<^verbatim>\<open>between\<close> compares a number with its two
  parameters, \<^verbatim>\<open>mute\<close> answers every value with the empty string, \<^verbatim>\<open>boom\<close> throws.
  Rule expressions are given normalized already; a locator
  looks its field up in the cross-field table.
\<close>

definition required_rule :: validator where
  "required_rule v ps ctx = Inr (JBool (truthy v))"

definition email_rule :: validator where
  "email_rule v ps ctx = Inr (JBool (case v of JStr s \<Rightarrow> CHR ''@'' \<in> set s | _ \<Rightarrow> False))"

definition min_rule :: validator where
  "min_rule v ps ctx =
     (case (v, ps) of
        (JStr s, PArr (JNum k # rest)) \<Rightarrow>
          Inr (if k \<le> int (length s) then JBool True else JStr ''too short'')
      | _ \<Rightarrow> Inr (JStr ''too short''))"

definition between_rule :: validator where
  "between_rule v ps ctx =
     (case (v, ps) of
        (JNum x, PArr [JNum lo, JNum hi]) \<Rightarrow> Inr (JBool (lo \<le> x \<and> x \<le> hi))
      | _ \<Rightarrow> Inr (JBool False))"

definition boom_rule :: validator where
  "boom_rule v ps ctx = Inl (Raised (ErrorObject (Rejection ''TypeError'' [] None None)))"

definition mute_rule :: validator where
  "mute_rule v ps ctx = Inr (JStr [])"

definition sample_rule :: "string \<Rightarrow> validator option" where
  "sample_rule n =
     (if n = ''required'' then Some required_rule
      else if n = ''email'' then Some email_rule
      else if n = ''min'' then Some min_rule
      else if n = ''between'' then Some between_rule
      else if n = ''mute'' then Some mute_rule
      else if n = ''boom'' then Some boom_rule
      else None)"

text \<open>
  A message generator that names the field and the rule, as a locale dictionary would;
  \<open>bare_env\<close> has no generator configured, and the generator of \<open>silent_env\<close> answers
  with the empty string.
\<close>

definition sample_message :: "field_ctx \<Rightarrow> string" where
  "sample_message ctx =
     (case ctx_rule ctx of
        None \<Rightarrow> ctx_field ctx @ '' is not valid''
      | Some r \<Rightarrow> ctx_field ctx @ '' fails '' @ fst r)"

definition sample_env :: "(string \<times> params) list env" where
  "sample_env =
     \<lparr>resolveRule = sample_rule,
      generateMessage = Some sample_message,
      normalizeRules = (\<lambda>e. e),
      callLocator = (\<lambda>v crossTable. case v of JFun i (Some r) \<Rightarrow> get_prop crossTable r | _ \<Rightarrow> JUndefined),
      getFromPath = get_prop\<rparr>"

definition bare_env :: "(string \<times> params) list env" where
  "bare_env = sample_env\<lparr>generateMessage := None\<rparr>"

definition silent_env :: "(string \<times> params) list env" where
  "silent_env = sample_env\<lparr>generateMessage := Some (\<lambda>ctx. [])\<rparr>"

text \<open>A function given as the rules of a field, which answers like \<^verbatim>\<open>mute\<close>.\<close>

definition mute_fn :: generic_fn where
  "mute_fn v ctx = Inr (JStr [])"

text \<open>
  Schema capabilities. \<open>flat_schema\<close> rejects with a validation error that carries its
  message and no \<^verbatim>\<open>inner\<close> list. \<open>two_mode_schema\<close> honours \<^verbatim>\<open>abortEarly\<close>: it reports
  the first of its two failing paths when asked to abort early, and both otherwise.
\<close>

definition flat_schema :: yup_validator where
  "flat_schema v abortEarly =
     Some (ErrorObject (Rejection ''ValidationError'' [''name is required''] None None))"

definition email_error :: rejection where
  "email_error = Rejection ''ValidationError'' [''email is required''] (Some ''email'') None"

definition name_error :: rejection where
  "name_error = Rejection ''ValidationError'' [''name is required''] (Some ''name'') None"

definition two_mode_schema :: yup_validator where
  "two_mode_schema v abortEarly =
     (if abortEarly then
        Some (ErrorObject
               (Rejection ''ValidationError'' [''email is required''] None (Some [email_error])))
      else
        Some (ErrorObject
               (Rejection ''ValidationError'' [''email is required'', ''name is required''] None
                  (Some [email_error, name_error]))))"

text \<open>
  Three providers: one whose last result had no error, one whose last result had an
  error, and one that was never validated.
\<close>

definition passing_field :: provider where
  "passing_field = applyResult [] (new_provider ''a'')"

definition failing_field :: provider where
  "failing_field = applyResult [''b is not valid''] (new_provider ''b'')"

definition fresh_field :: provider where
  "fresh_field = new_provider ''c''"

text \<open>A form schema of two fields, and values that leave both empty.\<close>

definition sample_schema :: "(string \<times> (string \<times> params) list rules) list" where
  "sample_schema =
     [(''email'', RawRules [(''required'', PArr []), (''email'', PArr [])]),
      (''name'', RawRules [(''required'', PArr []), (''min'', PArr [JNum 3])])]"

definition sample_values :: formdata where
  "sample_values = [(''email'', JStr []), (''name'', JStr [])]"

text \<open>
  Two overlapping runs of a provider of \<^verbatim>\<open>provider.js\<close>: run 1 is started, run 2 is
  started before run 1 resolves, run 2 resolves without errors, then run 1 resolves
  with an error.
\<close>

definition overlapping_runs :: provider where
  "overlapping_runs =
     fold provider_step [Fire 1, Fire 2, Settle 2 [], Settle 1 [''stale'']] (new_provider ''f'')"


definition sample_options :: "bool option \<Rightarrow> validation_options" where
  "sample_options b = \<lparr>opt_name = Some ''Value'', opt_values = Some [(''maxValue'', JNum 15)], opt_bails = b\<rparr>"

section \<open>Evaluation and helper lemmas\<close>

lemmas run_defs =
  validate_def priv_validate_def make_field_def priv_test_def fillTargetValues_def
  priv_generateFieldError_def normalize_value_def isLocator_def get_prop_def
  rule_passes_def rule_returns_def rule_holds_def failure_message_def no_such_validator_def

lemmas sample_defs =
  sample_env_def bare_env_def silent_env_def sample_rule_def sample_message_def sample_options_def
  required_rule_def email_rule_def min_rule_def between_rule_def boom_rule_def
  mute_rule_def mute_fn_def

lemmas schema_defs =
  flat_schema_def two_mode_schema_def email_error_def name_error_def
  validateYupSchema_def validateFieldWithYup_def yup_results_def path_key_def

lemmas flag_defs =
  applyResult_def setFlags_def new_provider_def createFlags_def passing_field_def
  failing_field_def fresh_field_def

lemmas object_defs =
  validateObjectSchema_def promise_all_def rejected_at_def path_options_def path_label_def
  schema_bails_def sample_schema_def sample_values_def


subsection \<open>Writing object entries\<close>

lemma update_fresh: "k \<notin> fst ` set al \<Longrightarrow> AList.update k v al = al @ [(k, v)]"
  by (induction al) auto

lemma fold_update_fresh:
  "distinct ks \<Longrightarrow> set ks \<inter> fst ` set acc = {} \<Longrightarrow>
   fold (\<lambda>k a. AList.update k (h k) a) ks acc = acc @ map (\<lambda>k. (k, h k)) ks"
proof (induction ks arbitrary: acc)
  case Nil
  then show ?case by simp
next
  case (Cons k ks)
  have fresh: "k \<notin> fst ` set acc" using Cons.prems by auto
  have "set ks \<inter> fst ` set (acc @ [(k, h k)]) = {}" using Cons.prems by auto
  with Cons show ?case by (simp add: update_fresh [OF fresh])
qed

lemma get_prop_distinct:
  "distinct (map fst kvs) \<Longrightarrow> (k, v) \<in> set kvs \<Longrightarrow> get_prop kvs k = v"
  by (simp add: get_prop_def)

lemma fill_obj:
  assumes "distinct (map fst kvs)"
  shows "fillTargetValues env (PObj kvs) ct =
         PObj (map (\<lambda>kv. (fst kv, normalize_value env ct (snd kv))) kvs)"
proof -
  have "fold (\<lambda>param acc. AList.update param (normalize_value env ct (get_prop kvs param)) acc)
          (map fst kvs) []
        = map (\<lambda>k. (k, normalize_value env ct (get_prop kvs k))) (map fst kvs)"
    using fold_update_fresh [of "map fst kvs" "[]" "\<lambda>k. normalize_value env ct (get_prop kvs k)"] assms
    by simp
  also have "\<dots> = map (\<lambda>kv. (fst kv, normalize_value env ct (snd kv))) kvs"
    using assms by (auto simp: get_prop_distinct)
  finally show ?thesis by (simp add: fillTargetValues_def)
qed

lemma fold_update_pairs:
  "distinct (map fst kvs) \<Longrightarrow> set (map fst kvs) \<inter> fst ` set acc = {} \<Longrightarrow>
   fold (\<lambda>kv a. AList.update (fst kv) (snd kv) a) kvs acc = acc @ kvs"
proof (induction kvs arbitrary: acc)
  case Nil
  then show ?case by simp
next
  case (Cons kv kvs)
  have fresh: "fst kv \<notin> fst ` set acc" using Cons.prems by auto
  have "set (map fst kvs) \<inter> fst ` set (acc @ [kv]) = {}" using Cons.prems by auto
  with Cons show ?case by (simp add: update_fresh [OF fresh])
qed

subsection \<open>The loop over the rules\<close>



lemma validate_raw:
  "validate env v (RawRules x) options =
     (case run_rules env (make_field (RawRules x) options) v (normalizeRules env x) [] of
        Inl t \<Rightarrow> Inl t
      | Inr errs \<Rightarrow> Inr \<lparr>errors = errs, valid = (errs = [])\<rparr>)"
  by (simp add: validate_def priv_validate_def make_field_def)

lemma bails_make_field: "bails (make_field rs options) = (opt_bails options \<noteq> Some False)"
  by (cases "opt_bails options") (auto simp: make_field_def)

lemma run_rules_all_hold:
  "list_all (rule_holds env field v) rs \<Longrightarrow> run_rules env field v rs errs = Inr errs"
  by (induction rs) (auto simp: rule_holds_def)

lemma run_rules_extends:
  "run_rules env field v rs errs = Inr out \<Longrightarrow> \<exists>rest. out = errs @ rest"
proof (induction rs arbitrary: errs)
  case Nil
  then show ?case by simp
next
  case (Cons r rs)
  then show ?case
    by (fastforce split: sum.splits option.splits if_splits)
qed

lemma run_rules_first_failure:
  assumes "priv_test env field v a = Inr (Some m)" and "m \<noteq> []"
  shows "list_all (rule_holds env field v) pre \<Longrightarrow>
         run_rules env field v (pre @ a # post) errs =
           (if bails field then Inr (errs @ [m]) else run_rules env field v post (errs @ [m]))"
  using assms by (induction pre) (auto simp: rule_holds_def)

lemma failure_messageD:
  "failure_message env field v a = Some m \<Longrightarrow> priv_test env field v a = Inr (Some m)"
  by (auto simp: failure_message_def split: sum.splits option.splits)



subsection \<open>The reduce of the observer\<close>

lemma merge_flag_flags:
  "ctx_flags (merge_flag p f acc) flag =
     (if flag = f then merged_with p flag (ctx_flags acc flag) else ctx_flags acc flag)"
  by (simp add: merge_flag_def merged_with_def split: option.splits)

lemma fold_merge_flag:
  "distinct fs \<Longrightarrow>
   ctx_flags (fold (merge_flag p) fs acc) flag =
     (if flag \<in> set fs then merged_with p flag (ctx_flags acc flag) else ctx_flags acc flag)"
proof (induction fs arbitrary: acc)
  case Nil
  then show ?case by simp
next
  case (Cons f fs)
  then show ?case by (auto simp: merge_flag_flags)
qed

lemma table_keys: "distinct (map fst flagMergingStrategy)"
  by (simp add: flagMergingStrategy_def)

lemma merge_provider_flag:
  "ctx_flags (merge_provider p acc) flag =
     (if flag \<in> set (map fst flagMergingStrategy) then merged_with p flag (ctx_flags acc flag)
      else ctx_flags acc flag)"
  by (simp add: merge_provider_def Let_def fold_merge_flag [OF table_keys] del: set_map)

lemma in_table: "map_of flagMergingStrategy flag = Some st \<Longrightarrow> flag \<in> set (map fst flagMergingStrategy)"
  by (metis map_of_eq_None_iff option.distinct(1) set_map)

lemma fold_merge_every:
  "map_of flagMergingStrategy flag = Some Every \<Longrightarrow> ctx_flags acc flag = Some b \<Longrightarrow>
   ctx_flags (fold merge_provider refs acc) flag = Some (b \<and> list_all (\<lambda>p. flags p flag) refs)"
proof (induction refs arbitrary: acc b)
  case Nil
  then show ?case by simp
next
  case (Cons p refs)
  have "ctx_flags (merge_provider p acc) flag = Some (b \<and> flags p flag)"
    using Cons.prems in_table [OF Cons.prems(1)]
    by (simp add: merge_provider_flag merged_with_def mergeFlags_def del: set_map)
  from Cons.IH [OF Cons.prems(1) this] show ?case by (simp add: conj_assoc)
qed

lemma fold_merge_some:
  "map_of flagMergingStrategy flag = Some SomeOf \<Longrightarrow> ctx_flags acc flag = Some b \<Longrightarrow>
   ctx_flags (fold merge_provider refs acc) flag = Some (b \<or> list_ex (\<lambda>p. flags p flag) refs)"
proof (induction refs arbitrary: acc b)
  case Nil
  then show ?case by simp
next
  case (Cons p refs)
  have "ctx_flags (merge_provider p acc) flag = Some (b \<or> flags p flag)"
    using Cons.prems in_table [OF Cons.prems(1)]
    by (simp add: merge_provider_flag merged_with_def mergeFlags_def del: set_map)
  from Cons.IH [OF Cons.prems(1) this] show ?case by (simp add: disj_assoc)
qed

lemma observer_every:
  assumes "map_of flagMergingStrategy flag = Some Every" and "refs \<noteq> []"
  shows "ctx_flags (observer_ctx_of refs) flag = Some (list_all (\<lambda>p. flags p flag) refs)"
proof -
  obtain p ps where r: "refs = p # ps" using assms(2) by (cases refs) auto
  have "ctx_flags (merge_provider p \<lparr>ctx_errors = [], ctx_flags = Map.empty\<rparr>) flag = Some (flags p flag)"
    using in_table [OF assms(1)] by (simp add: merge_provider_flag merged_with_def del: set_map)
  from fold_merge_every [OF assms(1) this, of ps] show ?thesis
    by (simp add: observer_ctx_of_def r)
qed

lemma observer_some:
  assumes "map_of flagMergingStrategy flag = Some SomeOf" and "refs \<noteq> []"
  shows "ctx_flags (observer_ctx_of refs) flag = Some (list_ex (\<lambda>p. flags p flag) refs)"
proof -
  obtain p ps where r: "refs = p # ps" using assms(2) by (cases refs) auto
  have "ctx_flags (merge_provider p \<lparr>ctx_errors = [], ctx_flags = Map.empty\<rparr>) flag = Some (flags p flag)"
    using in_table [OF assms(1)] by (simp add: merge_provider_flag merged_with_def del: set_map)
  from fold_merge_some [OF assms(1) this, of ps] show ?thesis
    by (simp add: observer_ctx_of_def r)
qed

subsection \<open>Validating an object schema\<close>

lemma map_filter_Nil_iff: "List.map_filter f xs = [] \<longleftrightarrow> (\<forall>x \<in> set xs. f x = None)"
  by (induction xs) (auto split: option.splits)

lemma resolved_values:
  "\<forall>p \<in> set ps. \<exists>x. p = Inr x \<Longrightarrow>
   map Inr (List.map_filter (\<lambda>p. case p of Inl t \<Rightarrow> None | Inr x \<Rightarrow> Some x) ps) = ps"
  by (induction ps) auto

lemma promise_all_Inr:
  assumes "promise_all settled ps = Inr xs"
  shows "ps = map Inr xs"
proof -
  have none: "List.map_filter (rejected_at ps) (settled @ [0..<length ps]) = []"
    and xs: "xs = List.map_filter (\<lambda>p. case p of Inl t \<Rightarrow> None | Inr x \<Rightarrow> Some x) ps"
    using assms by (auto simp: promise_all_def split: list.splits)
  have "\<forall>i < length ps. rejected_at ps i = None"
    using none by (simp add: map_filter_Nil_iff)
  have "\<forall>i < length ps. \<exists>x. ps ! i = Inr x"
  proof (intro allI impI)
    fix i assume i: "i < length ps"
    with \<open>\<forall>i < length ps. rejected_at ps i = None\<close> have "rejected_at ps i = None" by blast
    with i show "\<exists>x. ps ! i = Inr x"
      by (cases "ps ! i") (simp_all add: rejected_at_def)
  qed
  then have "\<forall>p \<in> set ps. \<exists>x. p = Inr x"
    by (auto simp: in_set_conv_nth)
  from resolved_values [OF this] xs show ?thesis by simp
qed

lemma run_rules_bail_length:
  "bails field \<Longrightarrow> run_rules env field v rs errs = Inr out \<Longrightarrow> length out \<le> Suc (length errs)"
proof (induction rs arbitrary: errs)
  case Nil
  then show ?case by auto
next
  case (Cons r rs)
  then show ?case by (auto split: sum.splits option.splits if_splits)
qed

lemma run_rules_messages:
  "\<not> bails field \<Longrightarrow> run_rules env field v rs errs = Inr out \<Longrightarrow>
   list_all (\<lambda>r. failure_message env field v r \<noteq> Some []) rs \<Longrightarrow>
   out = errs @ List.map_filter (failure_message env field v) rs"
proof (induction rs arbitrary: errs)
  case Nil
  then show ?case by simp
next
  case (Cons r rs)
  have tl: "list_all (\<lambda>r. failure_message env field v r \<noteq> Some []) rs"
    and hd: "failure_message env field v r \<noteq> Some []"
    using Cons.prems(3) by simp_all
  show ?case
  proof (cases "priv_test env field v r")
    case (Inl t)
    with Cons.prems(2) show ?thesis by simp
  next
    case (Inr e)
    show ?thesis
    proof (cases e)
      case None
      with Inr have fm: "failure_message env field v r = None" by (simp add: failure_message_def)
      from Inr None Cons.prems(2) have "run_rules env field v rs errs = Inr out" by simp
      from Cons.IH [OF Cons.prems(1) this tl] fm show ?thesis by simp
    next
      case (Some m)
      with Inr have fm: "failure_message env field v r = Some m" by (simp add: failure_message_def)
      with hd have "m \<noteq> []" by auto
      with Inr Some Cons.prems(1,2) have "run_rules env field v rs (errs @ [m]) = Inr out" by simp
      from Cons.IH [OF Cons.prems(1) this tl] fm show ?thesis by simp
    qed
  qed
qed

lemma validate_raw_modes:
  assumes "validate env v (RawRules x) options = Inr fr"
  shows "if opt_bails options \<noteq> Some False then length (errors fr) \<le> 1
         else (list_all (\<lambda>r. failure_message env (make_field (RawRules x) options) v r \<noteq> Some [])
                 (normalizeRules env x)
               \<longrightarrow> errors fr =
                 List.map_filter (failure_message env (make_field (RawRules x) options) v)
                   (normalizeRules env x))"
proof -
  obtain errs where r: "run_rules env (make_field (RawRules x) options) v (normalizeRules env x) [] = Inr errs"
    and res: "fr = \<lparr>errors = errs, valid = (errs = [])\<rparr>"
    using assms by (auto simp: validate_raw split: sum.splits)
  show ?thesis
  proof (cases "opt_bails options \<noteq> Some False")
    case True
    then have "bails (make_field (RawRules x) options)" by (simp add: bails_make_field)
    from run_rules_bail_length [OF this r] True res show ?thesis by simp
  next
    case False
    then have "\<not> bails (make_field (RawRules x) options)" by (simp add: bails_make_field)
    from run_rules_messages [OF this r] False res show ?thesis by simp
  qed
qed

lemma result_eta: "\<lparr>errors = errors (x :: validation_result), valid = valid x\<rparr> = x"
  by (cases x) simp

lemma object_schema_results:
  assumes d: "distinct (map fst schema)"
    and r: "validateObjectSchema env settled schema vals opts = Inr r"
  shows "map (\<lambda>entry. validate env (getFromPath env vals (fst entry)) (snd entry)
                 (path_options opts vals (fst entry))) schema
         = map (\<lambda>kv. Inr (snd kv)) (results r)"
    and "map fst (results r) = map fst schema"
    and "form_valid r = list_all (\<lambda>kv. valid (snd kv)) (results r)"
proof -
  let ?g = "\<lambda>entry. case validate env (getFromPath env vals (fst entry)) (snd entry)
                          (path_options opts vals (fst entry)) of
                     Inl t \<Rightarrow> Inl t
                   | Inr fieldResult \<Rightarrow> Inr (fst entry, fieldResult)"
  obtain rs where pa: "promise_all settled (map ?g schema) = Inr rs"
    and rr: "r = \<lparr>form_valid = list_all (\<lambda>r. valid (snd r)) rs,
                  results = fold (\<lambda>r acc. AList.update (fst r)
                                    \<lparr>errors = errors (snd r), valid = valid (snd r)\<rparr> acc) rs []\<rparr>"
    using r by (auto simp: validateObjectSchema_def Let_def split: sum.splits)
  have m: "map ?g schema = map Inr rs" using promise_all_Inr [OF pa] .
  have each: "\<forall>i < length schema. ?g (schema ! i) = Inr (rs ! i)" and len: "length rs = length schema"
    using m by (auto simp: list_eq_iff_nth_eq)
  have fst_eq: "map fst rs = map fst schema"
  proof (rule nth_equalityI)
    show "length (map fst rs) = length (map fst schema)" using len by simp
  next
    fix i assume "i < length (map fst rs)"
    then have i: "i < length schema" using len by simp
    with each have "?g (schema ! i) = Inr (rs ! i)" by blast
    then have "fst (rs ! i) = fst (schema ! i)" by (auto split: sum.splits dest: sym)
    with i len show "map fst rs ! i = map fst schema ! i" by simp
  qed
  have "fold (\<lambda>r acc. AList.update (fst r) \<lparr>errors = errors (snd r), valid = valid (snd r)\<rparr> acc) rs []
        = fold (\<lambda>kv a. AList.update (fst kv) (snd kv) a) rs []"
    by (simp add: result_eta)
  also have "\<dots> = rs" using fold_update_pairs [of rs "[]"] d fst_eq by simp
  finally have res: "results r = rs" using rr by simp
  show "map fst (results r) = map fst schema" using res fst_eq by simp
  show "form_valid r = list_all (\<lambda>kv. valid (snd kv)) (results r)" using res rr by simp
  show "map (\<lambda>entry. validate env (getFromPath env vals (fst entry)) (snd entry)
                 (path_options opts vals (fst entry))) schema
         = map (\<lambda>kv. Inr (snd kv)) (results r)"
  proof (rule nth_equalityI)
    show "length (map (\<lambda>entry. validate env (getFromPath env vals (fst entry)) (snd entry)
                 (path_options opts vals (fst entry))) schema) = length (map (\<lambda>kv. Inr (snd kv)) (results r))"
      using res len by simp
  next
    fix i assume "i < length (map (\<lambda>entry. validate env (getFromPath env vals (fst entry)) (snd entry)
                 (path_options opts vals (fst entry))) schema)"
    then have i: "i < length schema" by simp
    with each have "?g (schema ! i) = Inr (rs ! i)" by blast
    then have "validate env (getFromPath env vals (fst (schema ! i))) (snd (schema ! i))
                 (path_options opts vals (fst (schema ! i))) = Inr (snd (rs ! i))"
      by (auto split: sum.splits dest: sym)
    with i len res show "map (\<lambda>entry. validate env (getFromPath env vals (fst entry)) (snd entry)
                 (path_options opts vals (fst entry))) schema ! i = map (\<lambda>kv. Inr (snd kv)) (results r) ! i"
      by simp
  qed
qed

lemma object_schema_entry:
  assumes d: "distinct (map fst schema)"
    and r: "validateObjectSchema env settled schema vals opts = Inr r"
    and e: "(path, rs) \<in> set schema"
  shows "\<exists>fr. map_of (results r) path = Some fr \<and>
           validate env (getFromPath env vals path) rs (path_options opts vals path) = Inr fr"
proof -
  obtain i where i: "i < length schema" and si: "schema ! i = (path, rs)"
    using e by (auto simp: in_set_conv_nth)
  note R = object_schema_results [OF d r]
  have len: "length (results r) = length schema" using R(2) by (metis length_map)
  have "map (\<lambda>entry. validate env (getFromPath env vals (fst entry)) (snd entry)
                 (path_options opts vals (fst entry))) schema ! i = map (\<lambda>kv. Inr (snd kv)) (results r) ! i"
    using R(1) by simp
  with i len si have v: "validate env (getFromPath env vals path) rs (path_options opts vals path)
      = Inr (snd (results r ! i))" by simp
  have "fst (results r ! i) = path"
    using R(2) i len si by (metis fst_conv nth_map)
  moreover have "distinct (map fst (results r))" using R(2) d by simp
  moreover have "results r ! i \<in> set (results r)" using i len by simp
  ultimately have "map_of (results r) path = Some (snd (results r ! i))"
    by (metis map_of_eq_Some_iff prod.collapse)
  with v show ?thesis by blast
qed

subsection \<open>The effect on the meta\<close>




section \<open>Bail policy\<close>

text \<open>
  Claim C1. The claim asks for the message of the first failing rule under \<^verbatim>\<open>bails\<close>,
  and for one message per failing rule without it. A rule that answers with the empty
  string has failed, and the loop of \<^verbatim>\<open>_validate\<close> drops it, because it tests
  \<^verbatim>\<open>result.error\<close> for truthiness: with the rules \<^verbatim>\<open>mute\<close> and \<^verbatim>\<open>min:3\<close>, which both fail
  on the value, the run reports the message of the second rule alone, with \<^verbatim>\<open>bails\<close>
  and without it; with \<^verbatim>\<open>mute\<close> alone the run is valid. The branch of the same
  function for a rule given as a function reports the empty string as an error.
\<close>

theorem empty_message_dropped:
  "failure_message sample_env (make_field (RawRules []) (sample_options None)) (JStr ''ab'')
     (''mute'', PArr []) = Some []
   \<and> failure_message sample_env (make_field (RawRules []) (sample_options None)) (JStr ''ab'')
     (''min'', PArr [JNum 3]) = Some ''too short''
   \<and> validate sample_env (JStr ''ab'')
       (RawRules [(''mute'', PArr []), (''min'', PArr [JNum 3])]) (sample_options None) =
     Inr \<lparr>errors = [''too short''], valid = False\<rparr>
   \<and> validate sample_env (JStr ''ab'')
       (RawRules [(''mute'', PArr []), (''min'', PArr [JNum 3])]) (sample_options (Some False)) =
     Inr \<lparr>errors = [''too short''], valid = False\<rparr>
   \<and> validate sample_env (JStr ''ab'') (RawRules [(''mute'', PArr [])]) (sample_options None) =
     Inr \<lparr>errors = [], valid = True\<rparr>
   \<and> validate sample_env (JStr ''ab'') (FnRules mute_fn) (sample_options None) =
     Inr \<lparr>errors = [[]], valid = False\<rparr>"
  by (simp add: run_defs sample_defs)

section \<open>Locator resolution\<close>

text \<open>
  Claim C10. \<^verbatim>\<open>fillTargetValues\<close> keeps the shape of the parameters. An array gives an
  array of the same length whose entry at each position is the parameter itself when it
  is not a locator, and the value the locator looks up in the cross-field table when it
  is one. An object (its keys are distinct) gives an object with the same keys in the
  same order, each entry kept or looked up in the same way.
\<close>

theorem fillTargetValues_frame:
  "(\<exists>ys. fillTargetValues env (PArr xs) ct = PArr ys \<and> length ys = length xs \<and>
      (\<forall>i < length xs. ys ! i = (if isLocator (xs ! i) then callLocator env (xs ! i) ct else xs ! i)))
   \<and> (distinct (map fst kvs) \<longrightarrow>
      (\<exists>kvs'. fillTargetValues env (PObj kvs) ct = PObj kvs' \<and> map fst kvs' = map fst kvs \<and>
         (\<forall>i < length kvs. snd (kvs' ! i) =
            (if isLocator (snd (kvs ! i)) then callLocator env (snd (kvs ! i)) ct else snd (kvs ! i)))))"
proof (intro conjI impI)
  show "\<exists>ys. fillTargetValues env (PArr xs) ct = PArr ys \<and> length ys = length xs \<and>
      (\<forall>i < length xs. ys ! i = (if isLocator (xs ! i) then callLocator env (xs ! i) ct else xs ! i))"
    by (simp add: fillTargetValues_def normalize_value_def)
next
  assume d: "distinct (map fst kvs)"
  show "\<exists>kvs'. fillTargetValues env (PObj kvs) ct = PObj kvs' \<and> map fst kvs' = map fst kvs \<and>
         (\<forall>i < length kvs. snd (kvs' ! i) =
            (if isLocator (snd (kvs ! i)) then callLocator env (snd (kvs ! i)) ct else snd (kvs ! i)))"
    by (simp add: fill_obj [OF d] normalize_value_def comp_def)
qed

theorem fillTargetValues_frame_witness:
  "distinct (map fst [(''min'', JNum 0), (''max'', JFun 0 (Some ''maxValue''))]) \<and>
   (\<exists>ys. fillTargetValues sample_env (PArr [JNum 0, JFun 0 (Some ''maxValue'')])
            [(''maxValue'', JNum 15)] = PArr ys
      \<and> length ys = 2 \<and> ys ! 0 = JNum 0 \<and> ys ! 1 = JNum 15) \<and>
   (\<exists>kvs'. fillTargetValues sample_env (PObj [(''min'', JNum 0), (''max'', JFun 0 (Some ''maxValue''))])
             [(''maxValue'', JNum 15)] = PObj kvs'
      \<and> map fst kvs' = [''min'', ''max''] \<and> snd (kvs' ! 0) = JNum 0 \<and> snd (kvs' ! 1) = JNum 15)"
  using fillTargetValues_frame [of sample_env "[JNum 0, JFun 0 (Some ''maxValue'')]"
          "[(''maxValue'', JNum 15)]" "[(''min'', JNum 0), (''max'', JFun 0 (Some ''maxValue''))]"]
  by (simp add: isLocator_def sample_env_def get_prop_def fillTargetValues_def normalize_value_def)

section \<open>Empty values\<close>

text \<open>
  Claim C2, as amended. \<^verbatim>\<open>validate\<close> has no computation of required-ness and no
  short circuit for empty values: an empty value (the empty string, \<^verbatim>\<open>null\<close>,
  \<^verbatim>\<open>undefined\<close>, the empty array) and \<^verbatim>\<open>false\<close> are validated like every other value.
  If every rule of the list passes on the value, the run resolves valid, with zero
  errors. If a rule fails on the value with a non-empty message and the rules before
  it pass, then a run that resolves is invalid and its first error is that message;
  with \<^verbatim>\<open>bails\<close> true or omitted the run resolves with that message as its one error.
\<close>

theorem no_empty_short_circuit:
  "(list_all (rule_holds env (make_field (RawRules x) options) v) (normalizeRules env x)
      \<longrightarrow> validate env v (RawRules x) options = Inr \<lparr>errors = [], valid = True\<rparr>)
   \<and> (normalizeRules env x = pre @ a # post \<and>
       list_all (rule_holds env (make_field (RawRules x) options) v) pre \<and>
       failure_message env (make_field (RawRules x) options) v a = Some m \<and> m \<noteq> []
      \<longrightarrow> (\<forall>res. validate env v (RawRules x) options = Inr res
                \<longrightarrow> \<not> valid res \<and> (\<exists>rest. errors res = m # rest))
          \<and> (opt_bails options \<noteq> Some False
                \<longrightarrow> validate env v (RawRules x) options = Inr \<lparr>errors = [m], valid = False\<rparr>))"
proof (intro conjI impI allI)
  assume "list_all (rule_holds env (make_field (RawRules x) options) v) (normalizeRules env x)"
  from run_rules_all_hold [OF this]
  show "validate env v (RawRules x) options = Inr \<lparr>errors = [], valid = True\<rparr>"
    by (simp add: validate_raw)
next
  fix res
  assume h: "normalizeRules env x = pre @ a # post \<and>
       list_all (rule_holds env (make_field (RawRules x) options) v) pre \<and>
       failure_message env (make_field (RawRules x) options) v a = Some m \<and> m \<noteq> []"
    and r: "validate env v (RawRules x) options = Inr res"
  let ?f = "make_field (RawRules x) options"
  have t: "priv_test env ?f v a = Inr (Some m)" using h failure_messageD by blast
  have step: "run_rules env ?f v (pre @ a # post) [] =
      (if bails ?f then Inr ([] @ [m]) else run_rules env ?f v post ([] @ [m]))"
    using h by (intro run_rules_first_failure [OF t]) simp_all
  obtain errs where e: "run_rules env ?f v (pre @ a # post) [] = Inr errs"
    and res: "res = \<lparr>errors = errs, valid = (errs = [])\<rparr>"
    using r h by (auto simp: validate_raw split: sum.splits)
  have "\<exists>rest. errs = m # rest"
  proof (cases "bails ?f")
    case True
    with step e show ?thesis by simp
  next
    case False
    with step e have "run_rules env ?f v post [m] = Inr errs" by simp
    from run_rules_extends [OF this] show ?thesis by simp
  qed
  with res have both: "\<not> valid res \<and> (\<exists>rest. errors res = m # rest)" by auto
  from both show "\<not> valid res" by blast
  from both show "\<exists>rest. errors res = m # rest" by blast
next
  assume h: "normalizeRules env x = pre @ a # post \<and>
       list_all (rule_holds env (make_field (RawRules x) options) v) pre \<and>
       failure_message env (make_field (RawRules x) options) v a = Some m \<and> m \<noteq> []"
    and b: "opt_bails options \<noteq> Some False"
  let ?f = "make_field (RawRules x) options"
  have t: "priv_test env ?f v a = Inr (Some m)" using h failure_messageD by blast
  have "run_rules env ?f v (pre @ a # post) [] =
      (if bails ?f then Inr ([] @ [m]) else run_rules env ?f v post ([] @ [m]))"
    using h by (intro run_rules_first_failure [OF t]) simp_all
  with b h show "validate env v (RawRules x) options = Inr \<lparr>errors = [m], valid = False\<rparr>"
    by (simp add: validate_raw bails_make_field)
qed

theorem no_empty_short_circuit_witness:
  "list_all (rule_holds sample_env
       (make_field (RawRules [(''min'', PArr [JNum 0])]) (sample_options None)) (JStr []))
     (normalizeRules sample_env [(''min'', PArr [JNum 0])])
   \<and> validate sample_env (JStr []) (RawRules [(''min'', PArr [JNum 0])]) (sample_options None) =
     Inr \<lparr>errors = [], valid = True\<rparr>
   \<and> failure_message sample_env
       (make_field (RawRules [(''min'', PArr [JNum 0]), (''email'', PArr [])]) (sample_options None))
       (JStr []) (''email'', PArr []) = Some ''Value fails email''
   \<and> validate sample_env (JStr []) (RawRules [(''min'', PArr [JNum 0]), (''email'', PArr [])])
       (sample_options None) = Inr \<lparr>errors = [''Value fails email''], valid = False\<rparr>
   \<and> validate sample_env (JBool False) (RawRules [(''required'', PArr [])]) (sample_options None) =
     Inr \<lparr>errors = [''Value fails required''], valid = False\<rparr>"
proof -
  let ?R1 = "[(''min'', PArr [JNum 0])]"
  let ?R2 = "[(''min'', PArr [JNum 0]), (''email'', PArr [])]"
  let ?R3 = "[(''required'', PArr [])]"
  have h1: "list_all (rule_holds sample_env (make_field (RawRules ?R1) (sample_options None)) (JStr []))
     (normalizeRules sample_env ?R1)"
    by (simp add: run_defs sample_defs)
  have h2: "normalizeRules sample_env ?R2 = [(''min'', PArr [JNum 0])] @ (''email'', PArr []) # [] \<and>
       list_all (rule_holds sample_env (make_field (RawRules ?R2) (sample_options None)) (JStr []))
         [(''min'', PArr [JNum 0])] \<and>
       failure_message sample_env (make_field (RawRules ?R2) (sample_options None)) (JStr [])
         (''email'', PArr []) = Some ''Value fails email'' \<and> ''Value fails email'' \<noteq> []"
    by (simp add: run_defs sample_defs)
  have h3: "normalizeRules sample_env ?R3 = [] @ (''required'', PArr []) # [] \<and>
       list_all (rule_holds sample_env (make_field (RawRules ?R3) (sample_options None)) (JBool False)) [] \<and>
       failure_message sample_env (make_field (RawRules ?R3) (sample_options None)) (JBool False)
         (''required'', PArr []) = Some ''Value fails required'' \<and> ''Value fails required'' \<noteq> []"
    by (simp add: run_defs sample_defs)
  have b: "opt_bails (sample_options None) \<noteq> Some False" by (simp add: sample_options_def)
  have c1: "validate sample_env (JStr []) (RawRules ?R1) (sample_options None) =
      Inr \<lparr>errors = [], valid = True\<rparr>"
    using no_empty_short_circuit [where env = sample_env and x = ?R1 and v = "JStr []"
        and options = "sample_options None"] h1 by blast
  have c2: "validate sample_env (JStr []) (RawRules ?R2) (sample_options None) =
      Inr \<lparr>errors = [''Value fails email''], valid = False\<rparr>"
    using no_empty_short_circuit [where env = sample_env and x = ?R2 and v = "JStr []"
        and options = "sample_options None" and pre = "[(''min'', PArr [JNum 0])]"
        and a = "(''email'', PArr [])" and post = "[]" and m = "''Value fails email''"] h2 b
    by blast
  have c3: "validate sample_env (JBool False) (RawRules ?R3) (sample_options None) =
      Inr \<lparr>errors = [''Value fails required''], valid = False\<rparr>"
    using no_empty_short_circuit [where env = sample_env and x = ?R3 and v = "JBool False"
        and options = "sample_options None" and pre = "[]"
        and a = "(''required'', PArr [])" and post = "[]" and m = "''Value fails required''"] h3 b
    by blast
  from h1 h2 c1 c2 c3 show ?thesis by blast
qed

text \<open>
  The claim as stated fails: a field whose only rule is \<^verbatim>\<open>email\<close> is not required, and
  each of the four empty values is run through the rule and reported invalid.
\<close>

theorem empty_optional_counterexample:
  "validate sample_env (JStr []) (RawRules [(''email'', PArr [])]) (sample_options None) =
     Inr \<lparr>errors = [''Value fails email''], valid = False\<rparr>
   \<and> validate sample_env JNull (RawRules [(''email'', PArr [])]) (sample_options None) =
     Inr \<lparr>errors = [''Value fails email''], valid = False\<rparr>
   \<and> validate sample_env JUndefined (RawRules [(''email'', PArr [])]) (sample_options None) =
     Inr \<lparr>errors = [''Value fails email''], valid = False\<rparr>
   \<and> validate sample_env (JArr []) (RawRules [(''email'', PArr [])]) (sample_options None) =
     Inr \<lparr>errors = [''Value fails email''], valid = False\<rparr>"
  by (simp add: run_defs sample_defs)

section \<open>Unknown rule names\<close>





section \<open>Rejections of a schema capability\<close>

text \<open>
  Claim C5. The claim asks that a rejection named \<^verbatim>\<open>ValidationError\<close> become
  validation-failure data, its \<^verbatim>\<open>errors\<close> list verbatim. \<^verbatim>\<open>validateFieldWithYup\<close> does
  that. \<^verbatim>\<open>validateYupSchema\<close> reads \<^verbatim>\<open>err.inner || []\<close> and never \<^verbatim>\<open>err.errors\<close>: when
  the schema rejects with a validation error that carries a message and no \<^verbatim>\<open>inner\<close>
  list, it resolves with a valid form and no result, and the message is lost.
\<close>

theorem validation_error_without_inner:
  "flat_schema (JObj []) False =
     Some (ErrorObject (Rejection ''ValidationError'' [''name is required''] None None))
   \<and> validateYupSchema flat_schema (JObj []) = Inr \<lparr>form_valid = True, results = []\<rparr>
   \<and> validateFieldWithYup (JObj []) flat_schema (Some False) = Inr [''name is required'']"
  by (simp add: schema_defs)

section \<open>The message of a failing rule\<close>

text \<open>
  Claim C6, as amended. In \<^verbatim>\<open>_test\<close>, when the rule's validator returns a string, that
  exact string is the error message; when it returns \<^verbatim>\<open>false\<close>, exactly one message is
  produced, the one \<^verbatim>\<open>_generateFieldError\<close> gives for the rule's context: the fallback
  \<^verbatim>\<open>Field is invalid\<close> when no generator is configured, and otherwise what the
  configured generator answers. It is non-empty when no generator is configured or
  the generator's answer is non-empty.
\<close>

theorem rule_message:
  "(resolveRule env (fst r) = Some f \<and>
    f v (fillTargetValues env (snd r) (formData field)) (rule_ctx env field v r) = Inr (JStr s)
      \<longrightarrow> priv_test env field v r = Inr (Some s))
   \<and> (resolveRule env (fst r) = Some f \<and>
    f v (fillTargetValues env (snd r) (formData field)) (rule_ctx env field v r) = Inr (JBool False)
      \<longrightarrow> priv_test env field v r = Inr (Some (priv_generateFieldError env (rule_ctx env field v r))))
   \<and> (generateMessage env = None \<longrightarrow> priv_generateFieldError env ctx = ''Field is invalid'')
   \<and> (generateMessage env = Some g \<longrightarrow> priv_generateFieldError env ctx = g ctx)
   \<and> ((generateMessage env = None \<or> (\<exists>g. generateMessage env = Some g \<and> g ctx \<noteq> []))
      \<longrightarrow> priv_generateFieldError env ctx \<noteq> [])"
  by (auto simp: priv_test_def rule_ctx_def priv_generateFieldError_def Let_def)

theorem rule_message_witness:
  "priv_test sample_env (make_field (RawRules []) (sample_options None)) (JStr ''ab'')
      (''min'', PArr [JNum 3]) = Inr (Some ''too short'')
   \<and> priv_test sample_env (make_field (RawRules []) (sample_options None)) (JStr ''nobody'')
      (''email'', PArr []) = Inr (Some ''Value fails email'')
   \<and> priv_test bare_env (make_field (RawRules []) (sample_options None)) (JStr ''nobody'')
      (''email'', PArr []) = Inr (Some ''Field is invalid'')"
proof -
  let ?fd = "make_field (RawRules ([] :: (string \<times> params) list)) (sample_options None)"
  let ?min = "(''min'', PArr [JNum 3])"
  let ?email = "(''email'', PArr [])"
  have h1: "resolveRule sample_env (fst ?min) = Some min_rule \<and>
      min_rule (JStr ''ab'') (fillTargetValues sample_env (snd ?min) (formData ?fd))
        (rule_ctx sample_env ?fd (JStr ''ab'') ?min) = Inr (JStr ''too short'')"
    by (simp add: run_defs sample_defs)
  have h2: "resolveRule sample_env (fst ?email) = Some email_rule \<and>
      email_rule (JStr ''nobody'') (fillTargetValues sample_env (snd ?email) (formData ?fd))
        (rule_ctx sample_env ?fd (JStr ''nobody'') ?email) = Inr (JBool False)"
    by (simp add: run_defs sample_defs)
  have h3: "resolveRule bare_env (fst ?email) = Some email_rule \<and>
      email_rule (JStr ''nobody'') (fillTargetValues bare_env (snd ?email) (formData ?fd))
        (rule_ctx bare_env ?fd (JStr ''nobody'') ?email) = Inr (JBool False)"
    by (simp add: run_defs sample_defs)
  have g2: "generateMessage sample_env = Some sample_message" by (simp add: sample_defs)
  have g3: "generateMessage bare_env = None" by (simp add: sample_defs)
  have c1: "priv_test sample_env ?fd (JStr ''ab'') ?min = Inr (Some ''too short'')"
    using rule_message [where env = sample_env and r = ?min and f = min_rule and v = "JStr ''ab''"
        and field = ?fd and s = "''too short''"] h1 by blast
  have c2: "priv_test sample_env ?fd (JStr ''nobody'') ?email =
        Inr (Some (sample_message (rule_ctx sample_env ?fd (JStr ''nobody'') ?email)))"
    using rule_message [where env = sample_env and r = ?email and f = email_rule
        and v = "JStr ''nobody''" and field = ?fd and g = sample_message
        and ctx = "rule_ctx sample_env ?fd (JStr ''nobody'') ?email"] h2 g2 by simp
  have c3: "priv_test bare_env ?fd (JStr ''nobody'') ?email = Inr (Some ''Field is invalid'')"
    using rule_message [where env = bare_env and r = ?email and f = email_rule
        and v = "JStr ''nobody''" and field = ?fd
        and ctx = "rule_ctx bare_env ?fd (JStr ''nobody'') ?email"] h3 g3 by simp
  have m: "sample_message (rule_ctx sample_env ?fd (JStr ''nobody'') ?email) = ''Value fails email''"
    by (simp add: rule_ctx_def sample_defs make_field_def)
  from c1 c2 c3 m show ?thesis by simp
qed


text \<open>
  The claim as stated fails: the message is the configured generator's answer, and a
  generator may answer with the empty string.
\<close>

theorem rule_message_counterexample:
  "resolveRule silent_env ''email'' = Some email_rule
   \<and> email_rule (JStr ''nobody'') (PArr [])
        (rule_ctx silent_env (make_field (RawRules []) (sample_options None)) (JStr ''nobody'')
           (''email'', PArr [])) = Inr (JBool False)
   \<and> priv_test silent_env (make_field (RawRules []) (sample_options None)) (JStr ''nobody'')
        (''email'', PArr []) = Inr (Some [])"
  by (simp add: run_defs sample_defs)


section \<open>The flags of a form\<close>

text \<open>
  Claim C7, as amended. For every non-empty list of registered providers, the slot
  context of the observer carries each flag of the merge table: \<^verbatim>\<open>pristine\<close>,
  \<^verbatim>\<open>untouched\<close>, \<^verbatim>\<open>valid\<close> and \<^verbatim>\<open>validated\<close> hold exactly when they hold for all
  providers, and \<^verbatim>\<open>dirty\<close>, \<^verbatim>\<open>touched\<close>, \<^verbatim>\<open>invalid\<close> and \<^verbatim>\<open>pending\<close> exactly when they
  hold for some provider. In particular fields with valid = [true, false] give valid =
  false, and fields with validated = [true, false] give validated = false.
\<close>

theorem form_flags:
  "refs \<noteq> [] \<longrightarrow>
     ctx_flags (observer_ctx_of refs) Pristine = Some (\<forall>p \<in> set refs. flags p Pristine)
   \<and> ctx_flags (observer_ctx_of refs) Untouched = Some (\<forall>p \<in> set refs. flags p Untouched)
   \<and> ctx_flags (observer_ctx_of refs) Valid = Some (\<forall>p \<in> set refs. flags p Valid)
   \<and> ctx_flags (observer_ctx_of refs) Validated = Some (\<forall>p \<in> set refs. flags p Validated)
   \<and> ctx_flags (observer_ctx_of refs) Dirty = Some (\<exists>p \<in> set refs. flags p Dirty)
   \<and> ctx_flags (observer_ctx_of refs) Touched = Some (\<exists>p \<in> set refs. flags p Touched)
   \<and> ctx_flags (observer_ctx_of refs) Invalid = Some (\<exists>p \<in> set refs. flags p Invalid)
   \<and> ctx_flags (observer_ctx_of refs) Pending = Some (\<exists>p \<in> set refs. flags p Pending)"
proof
  assume ne: "refs \<noteq> []"
  have e: "\<And>flag. map_of flagMergingStrategy flag = Some Every \<Longrightarrow>
      ctx_flags (observer_ctx_of refs) flag = Some (\<forall>p \<in> set refs. flags p flag)"
    using observer_every [OF _ ne] by (simp add: list_all_iff)
  have s: "\<And>flag. map_of flagMergingStrategy flag = Some SomeOf \<Longrightarrow>
      ctx_flags (observer_ctx_of refs) flag = Some (\<exists>p \<in> set refs. flags p flag)"
    using observer_some [OF _ ne] by (simp add: list_ex_iff)
  show "ctx_flags (observer_ctx_of refs) Pristine = Some (\<forall>p \<in> set refs. flags p Pristine)
   \<and> ctx_flags (observer_ctx_of refs) Untouched = Some (\<forall>p \<in> set refs. flags p Untouched)
   \<and> ctx_flags (observer_ctx_of refs) Valid = Some (\<forall>p \<in> set refs. flags p Valid)
   \<and> ctx_flags (observer_ctx_of refs) Validated = Some (\<forall>p \<in> set refs. flags p Validated)
   \<and> ctx_flags (observer_ctx_of refs) Dirty = Some (\<exists>p \<in> set refs. flags p Dirty)
   \<and> ctx_flags (observer_ctx_of refs) Touched = Some (\<exists>p \<in> set refs. flags p Touched)
   \<and> ctx_flags (observer_ctx_of refs) Invalid = Some (\<exists>p \<in> set refs. flags p Invalid)
   \<and> ctx_flags (observer_ctx_of refs) Pending = Some (\<exists>p \<in> set refs. flags p Pending)"
    by (intro conjI e s) (simp_all add: flagMergingStrategy_def)
qed

theorem form_flags_witness:
  "[passing_field, failing_field] \<noteq> []
   \<and> ctx_flags (observer_ctx_of [passing_field, failing_field]) Valid = Some False
   \<and> ctx_flags (observer_ctx_of [passing_field, failing_field]) Invalid = Some True
   \<and> ctx_flags (observer_ctx_of [passing_field, failing_field]) Validated = Some True
   \<and> ctx_flags (observer_ctx_of [passing_field, fresh_field]) Validated = Some False
   \<and> ctx_flags (observer_ctx_of [passing_field, fresh_field]) Pristine = Some True"
  using form_flags [of "[passing_field, failing_field]"] form_flags [of "[passing_field, fresh_field]"]
  by (simp add: flag_defs Let_def)


text \<open>
  The claim as stated fails for an observer without providers: every one of its (zero)
  fields is valid, and the context carries no \<^verbatim>\<open>valid\<close> flag at all, the reduce having
  started from a context without flags.
\<close>

theorem form_flags_counterexample:
  "list_all (\<lambda>p. flags p Valid) [] \<and> ctx_flags (observer_ctx_of []) Valid = None"
  by (simp add: observer_ctx_of_def)


section \<open>Schema-level entry points\<close>

text \<open>
  Claim C8, as amended. \<^verbatim>\<open>validateObjectSchema\<close> lets its caller choose the mode
  through \<^verbatim>\<open>opts.bails\<close> (true when omitted): when it resolves, the result recorded
  under each path of the schema (the keys of the schema object, which are distinct) is
  the result of \<^verbatim>\<open>validate\<close> on that path's value under these \<^verbatim>\<open>bails\<close>. For a path with
  a rule list this is at most one error when the form bails; when it does not, and no
  failing rule of the path has the empty string as its message, it is the messages of
  all the failing rules of the path, in the order of the list. \<^verbatim>\<open>validateYupSchema\<close>
  takes no such option: it always calls the schema with \<^verbatim>\<open>abortEarly\<close> false, so that
  its result is the one for what the schema answers to that call.
\<close>

theorem schema_modes:
  "(distinct (map fst schema) \<and> validateObjectSchema env settled schema vals opts = Inr r \<and>
      (path, rs) \<in> set schema
     \<longrightarrow> (\<exists>fr. map_of (results r) path = Some fr \<and>
            validate env (getFromPath env vals path) rs
              \<lparr>opt_name = Some (path_label opts path), opt_values = Some vals,
               opt_bails = Some (schema_bails opts)\<rparr> = Inr fr \<and>
            (\<forall>x. rs = RawRules x \<longrightarrow>
               (if schema_bails opts then length (errors fr) \<le> 1
                else (list_all
                        (\<lambda>q. failure_message env (make_field (RawRules x) (path_options opts vals path))
                               (getFromPath env vals path) q \<noteq> Some [])
                        (normalizeRules env x)
                      \<longrightarrow> errors fr =
                        List.map_filter
                          (failure_message env (make_field (RawRules x) (path_options opts vals path))
                             (getFromPath env vals path))
                          (normalizeRules env x))))))
   \<and> validateYupSchema s vs = validateYupSchema (\<lambda>v abortEarly. s v False) vs"
proof (intro conjI impI)
  assume h: "distinct (map fst schema) \<and> validateObjectSchema env settled schema vals opts = Inr r \<and>
      (path, rs) \<in> set schema"
  then obtain fr where m: "map_of (results r) path = Some fr"
    and v: "validate env (getFromPath env vals path) rs (path_options opts vals path) = Inr fr"
    using object_schema_entry [of schema env settled vals opts r path rs] by blast
  have modes: "\<forall>x. rs = RawRules x \<longrightarrow>
               (if schema_bails opts then length (errors fr) \<le> 1
                else (list_all
                        (\<lambda>q. failure_message env (make_field (RawRules x) (path_options opts vals path))
                               (getFromPath env vals path) q \<noteq> Some [])
                        (normalizeRules env x)
                      \<longrightarrow> errors fr =
                        List.map_filter
                          (failure_message env (make_field (RawRules x) (path_options opts vals path))
                             (getFromPath env vals path))
                          (normalizeRules env x)))"
  proof (intro allI impI)
    fix x assume "rs = RawRules x"
    with v have "validate env (getFromPath env vals path) (RawRules x) (path_options opts vals path) = Inr fr"
      by simp
    from validate_raw_modes [OF this]
    show "if schema_bails opts then length (errors fr) \<le> 1
                else (list_all
                        (\<lambda>q. failure_message env (make_field (RawRules x) (path_options opts vals path))
                               (getFromPath env vals path) q \<noteq> Some [])
                        (normalizeRules env x)
                      \<longrightarrow> errors fr =
                        List.map_filter
                          (failure_message env (make_field (RawRules x) (path_options opts vals path))
                             (getFromPath env vals path))
                          (normalizeRules env x))"
      by (simp add: path_options_def split: if_splits)
  qed
  from m v have "map_of (results r) path = Some fr \<and>
            validate env (getFromPath env vals path) rs
              \<lparr>opt_name = Some (path_label opts path), opt_values = Some vals,
               opt_bails = Some (schema_bails opts)\<rparr> = Inr fr"
    by (simp add: path_options_def)
  with modes show "\<exists>fr. map_of (results r) path = Some fr \<and>
            validate env (getFromPath env vals path) rs
              \<lparr>opt_name = Some (path_label opts path), opt_values = Some vals,
               opt_bails = Some (schema_bails opts)\<rparr> = Inr fr \<and>
            (\<forall>x. rs = RawRules x \<longrightarrow>
               (if schema_bails opts then length (errors fr) \<le> 1
                else (list_all
                        (\<lambda>q. failure_message env (make_field (RawRules x) (path_options opts vals path))
                               (getFromPath env vals path) q \<noteq> Some [])
                        (normalizeRules env x)
                      \<longrightarrow> errors fr =
                        List.map_filter
                          (failure_message env (make_field (RawRules x) (path_options opts vals path))
                             (getFromPath env vals path))
                          (normalizeRules env x))))"
    by blast
next
  show "validateYupSchema s vs = validateYupSchema (\<lambda>v abortEarly. s v False) vs"
    by (simp add: validateYupSchema_def)
qed

theorem schema_modes_witness:
  "distinct (map fst sample_schema)
   \<and> (''email'', RawRules [(''required'', PArr []), (''email'', PArr [])]) \<in> set sample_schema
   \<and> validateObjectSchema sample_env [] sample_schema sample_values None =
       Inr \<lparr>form_valid = False,
            results = [(''email'', \<lparr>errors = [''email fails required''], valid = False\<rparr>),
                       (''name'', \<lparr>errors = [''name fails required''], valid = False\<rparr>)]\<rparr>
   \<and> validateObjectSchema sample_env [] sample_schema sample_values
         (Some \<lparr>opts_names = None, opts_bails = Some False\<rparr>) =
       Inr \<lparr>form_valid = False,
            results = [(''email'', \<lparr>errors = [''email fails required'', ''email fails email''],
                                    valid = False\<rparr>),
                       (''name'', \<lparr>errors = [''name fails required'', ''too short''],
                                   valid = False\<rparr>)]\<rparr>
   \<and> (\<exists>fr. validate sample_env (JStr []) (RawRules [(''required'', PArr []), (''email'', PArr [])])
              \<lparr>opt_name = Some ''email'', opt_values = Some sample_values, opt_bails = Some True\<rparr>
            = Inr fr \<and> length (errors fr) \<le> 1)
   \<and> (\<exists>fr. validate sample_env (JStr []) (RawRules [(''required'', PArr []), (''email'', PArr [])])
              \<lparr>opt_name = Some ''email'', opt_values = Some sample_values, opt_bails = Some False\<rparr>
            = Inr fr \<and> errors fr = [''email fails required'', ''email fails email''])"
proof -
  let ?rs = "[(''required'', PArr []), (''email'', PArr [])]"
  let ?o2 = "Some \<lparr>opts_names = None, opts_bails = Some False\<rparr>"
  let ?r1 = "\<lparr>form_valid = False,
            results = [(''email'', \<lparr>errors = [''email fails required''], valid = False\<rparr>),
                       (''name'', \<lparr>errors = [''name fails required''], valid = False\<rparr>)]\<rparr>"
  let ?r2 = "\<lparr>form_valid = False,
            results = [(''email'', \<lparr>errors = [''email fails required'', ''email fails email''],
                                    valid = False\<rparr>),
                       (''name'', \<lparr>errors = [''name fails required'', ''too short''],
                                   valid = False\<rparr>)]\<rparr>"
  have d: "distinct (map fst sample_schema)" by (simp add: sample_schema_def)
  have m: "(''email'', RawRules ?rs) \<in> set sample_schema" by (simp add: sample_schema_def)
  have v1: "validateObjectSchema sample_env [] sample_schema sample_values None = Inr ?r1"
    by (simp add: object_defs run_defs sample_defs)
  have v2: "validateObjectSchema sample_env [] sample_schema sample_values ?o2 = Inr ?r2"
    by (simp add: object_defs run_defs sample_defs)
  have ne: "list_all
      (\<lambda>q. failure_message sample_env (make_field (RawRules ?rs) (path_options ?o2 sample_values ''email''))
              (getFromPath sample_env sample_values ''email'') q \<noteq> Some [])
      (normalizeRules sample_env ?rs)"
    by (simp add: object_defs run_defs sample_defs)
  have ms: "List.map_filter
      (failure_message sample_env (make_field (RawRules ?rs) (path_options ?o2 sample_values ''email''))
              (getFromPath sample_env sample_values ''email''))
      (normalizeRules sample_env ?rs) = [''email fails required'', ''email fails email'']"
    by (simp add: object_defs run_defs sample_defs)
  from schema_modes [of sample_schema sample_env "[]" sample_values None ?r1 "''email''" "RawRules ?rs"]
    d m v1
  obtain fr where "validate sample_env (getFromPath sample_env sample_values ''email'') (RawRules ?rs)
              \<lparr>opt_name = Some (path_label None ''email''), opt_values = Some sample_values,
               opt_bails = Some (schema_bails None)\<rparr> = Inr fr"
    and "length (errors fr) \<le> 1"
    by (auto simp: schema_bails_def)
  then have c1: "\<exists>fr. validate sample_env (JStr []) (RawRules ?rs)
              \<lparr>opt_name = Some ''email'', opt_values = Some sample_values, opt_bails = Some True\<rparr>
            = Inr fr \<and> length (errors fr) \<le> 1"
    by (auto simp: path_label_def schema_bails_def sample_env_def sample_values_def get_prop_def)
  from schema_modes [of sample_schema sample_env "[]" sample_values ?o2 ?r2 "''email''" "RawRules ?rs"]
    d m v2 ne
  obtain fr' where "validate sample_env (getFromPath sample_env sample_values ''email'') (RawRules ?rs)
              \<lparr>opt_name = Some (path_label ?o2 ''email''), opt_values = Some sample_values,
               opt_bails = Some (schema_bails ?o2)\<rparr> = Inr fr'"
    and "errors fr' = List.map_filter
      (failure_message sample_env (make_field (RawRules ?rs) (path_options ?o2 sample_values ''email''))
              (getFromPath sample_env sample_values ''email''))
      (normalizeRules sample_env ?rs)"
    by (auto simp: schema_bails_def)
  then have c2: "\<exists>fr. validate sample_env (JStr []) (RawRules ?rs)
              \<lparr>opt_name = Some ''email'', opt_values = Some sample_values, opt_bails = Some False\<rparr>
            = Inr fr \<and> errors fr = [''email fails required'', ''email fails email'']"
    unfolding ms
    by (auto simp: path_label_def schema_bails_def sample_env_def sample_values_def get_prop_def)
  from d m v1 v2 c1 c2 show ?thesis by blast
qed

text \<open>
  The claim as stated fails for \<^verbatim>\<open>validateYupSchema\<close>: the schema below would report one
  path when asked to abort early, and the only call there is collects both.
\<close>

theorem schema_modes_counterexample:
  "two_mode_schema (JObj []) True =
     Some (ErrorObject
            (Rejection ''ValidationError'' [''email is required''] None (Some [email_error])))
   \<and> validateYupSchema two_mode_schema (JObj []) =
     Inr \<lparr>form_valid = False,
          results = [(''email'', \<lparr>errors = [''email is required''], valid = False\<rparr>),
                     (''name'', \<lparr>errors = [''name is required''], valid = False\<rparr>)]\<rparr>"
  by (simp add: schema_defs)

section \<open>The derived flags\<close>




section \<open>Overlapping runs\<close>

text \<open>
  Claim C4. The claim asks that the result of an older run be discarded when a newer
  run has started. In \<^verbatim>\<open>provider.js\<close> the handler compares the promise with
  \<^verbatim>\<open>_waiting\<close> before it applies the result, but the promise is the one of
  \<^verbatim>\<open>ctx.validate()\<close>, which has applied the result already: when run 1 resolves after
  run 2, its error replaces the empty messages of run 2.
\<close>

theorem stale_result_applied:
  "messages overlapping_runs = [''stale''] \<and> flags overlapping_runs Invalid
   \<and> \<not> flags overlapping_runs Valid \<and> waiting overlapping_runs = None
   \<and> messages (fold provider_step [Fire 1, Fire 2, Settle 2 []] (new_provider ''f'')) = []"
  by (simp add: overlapping_runs_def flag_defs Let_def)


end
